theory Spec2Isabelle
  imports Main
begin

section \<open>Elements of finitely generated free graded left modules\<close>

text \<open>
  A shallow embedding of \<^verbatim>\<open>FreeGradedModuleElement\<close>
  (\<^verbatim>\<open>src/sage/modules/fp_graded/free_element.py\<close>): the methods
  \<^verbatim>\<open>coefficients\<close>, \<^verbatim>\<open>degree\<close>, \<^verbatim>\<open>lift_to_free\<close>,
  \<^verbatim>\<open>_lmul_\<close> and \<^verbatim>\<open>vector_presentation\<close>.

  The class talks to two collaborators whose code is not part of this file: the graded
  algebra the module is defined over, and the parent module.  Both are taken as
  parameters: a record of the operations the methods call on them.
\<close>

subsection \<open>Exceptions\<close>

text \<open>
  The two exception classes that the methods can end with: \<^verbatim>\<open>ValueError\<close> with its
  message, and the \<^verbatim>\<open>KeyError\<close> of a failed dictionary lookup.
\<close>

datatype error = ValueError string | KeyError

definition zero_msg :: string where
  "zero_msg = ''the zero element does not have a well-defined degree''"

definition nonhom_msg :: string where
  "nonhom_msg = ''this is a nonhomogeneous element, no well-defined degree''"

definition empty_min_msg :: string where
  "empty_min_msg = ''min() arg is an empty sequence''"

definition empty_max_msg :: string where
  "empty_max_msg = ''max() arg is an empty sequence''"

subsection \<open>The algebra: what the methods ask of a coefficient\<close>

text \<open>
  An algebra element has type \<open>'a\<close>, a scalar of the ground field type \<open>'s\<close>.
  \<^item> \<open>ring_is_zero c\<close> is \<^verbatim>\<open>c.is_zero()\<close>, and \<^verbatim>\<open>bool(c)\<close> is its negation;
  \<^item> \<open>ring_degree c\<close> is \<^verbatim>\<open>c.degree()\<close>: \<open>Inr d\<close> when it returns \<open>d\<close>, \<open>Inl msg\<close>
    when it raises \<^verbatim>\<open>ValueError(msg)\<close>, the failure of an algebra element that has no
    well-defined degree;
  \<^item> \<open>ring_mul a c\<close> is \<^verbatim>\<open>a*c\<close>;
  \<^item> \<open>ring_coefficients c\<close> and \<open>ring_monomials c\<close> are \<^verbatim>\<open>c.coefficients()\<close> and
    \<^verbatim>\<open>c.monomials()\<close>;
  \<^item> \<open>ring_zero\<close>, \<open>ring_one\<close>, \<open>ring_add\<close> and \<open>ring_scale\<close> (a scalar times an
    algebra element) are not called by the methods; they are needed to state the laws
    about sums of elements.
\<close>

record ('a, 's) algebra =
  ring_zero :: 'a
  ring_one :: 'a
  ring_add :: "'a \<Rightarrow> 'a \<Rightarrow> 'a"
  ring_mul :: "'a \<Rightarrow> 'a \<Rightarrow> 'a"
  ring_scale :: "'s \<Rightarrow> 'a \<Rightarrow> 'a"
  ring_is_zero :: "'a \<Rightarrow> bool"
  ring_degree :: "'a \<Rightarrow> string + int"
  ring_coefficients :: "'a \<Rightarrow> 's list"
  ring_monomials :: "'a \<Rightarrow> 'a list"

subsection \<open>Module elements and the parent module\<close>

text \<open>
  An element stores one coefficient per generator of its parent;
  \<^verbatim>\<open>dense_coefficient_list()\<close> is that sequence, in the order of the generators.
\<close>

record 'a element =
  dense_coefficient_list :: "'a list"

text \<open>
  The parent module, as far as an element uses it.  \<^verbatim>\<open>self.parent()\<close> is passed to
  every method as the argument \<open>P\<close> (an element cannot hold its parent in HOL, since the
  parent returns elements).
  \<^item> \<open>generator_degrees\<close>: \<^verbatim>\<open>P.generator_degrees()\<close>;
  \<^item> \<open>basis_elements n\<close>: \<^verbatim>\<open>P.basis_elements(n)\<close>, the ordered basis in degree \<open>n\<close>;
  \<^item> \<open>vector_presentation_dim n\<close>: the dimension of the vector space
    \<^verbatim>\<open>P.vector_presentation(n)\<close>;
  \<^item> \<open>generator i\<close>: \<^verbatim>\<open>P.generator(i)\<close>.
\<close>

record 'a parent =
  generator_degrees :: "int list"
  basis_elements :: "int \<Rightarrow> 'a element list"
  vector_presentation_dim :: "int \<Rightarrow> nat"
  generator :: "nat \<Rightarrow> 'a element"

text \<open>
  Modelled from the spec: the element constructor of the parent, \<^verbatim>\<open>P(coeffs)\<close>, which is
  not in the source file.  The spec's \<^verbatim>\<open>Construct(coeffs)\<close> makes the element whose
  coefficient sequence is \<open>coeffs\<close>.
\<close>

definition element_constructor :: "'a list \<Rightarrow> 'a element" where
  "element_constructor coeffs = \<lparr>dense_coefficient_list = coeffs\<rparr>"

text \<open>
  Modelled from the spec: \<^verbatim>\<open>is_zero()\<close> of an element, inherited from a base class
  that is not in the source file.  The spec: true iff every coefficient is zero in the
  algebra.
\<close>

definition is_zero :: "('a, 's) algebra \<Rightarrow> 'a element \<Rightarrow> bool" where
  "is_zero A x = list_all (ring_is_zero A) (dense_coefficient_list x)"

text \<open>
  Modelled from the spec: the sum \<^verbatim>\<open>x + y\<close> of two elements of one parent, inherited
  from a base class that is not in the source file.  It adds the coefficients of each
  generator.
\<close>

definition add_elem :: "('a, 's) algebra \<Rightarrow> 'a element \<Rightarrow> 'a element \<Rightarrow> 'a element" where
  "add_elem A x y =
     element_constructor (map2 (ring_add A) (dense_coefficient_list x) (dense_coefficient_list y))"

subsection \<open>coefficients, lift\_to\_free and the left action\<close>

definition coefficients :: "'a element \<Rightarrow> 'a list" where
  "coefficients x = dense_coefficient_list x"

definition lift_to_free :: "'a element \<Rightarrow> 'a element" where
  "lift_to_free x = x"

text \<open>\<^verbatim>\<open>return self.parent()((a*c for c in self.coefficients()))\<close>\<close>

definition lmul :: "('a, 's) algebra \<Rightarrow> 'a element \<Rightarrow> 'a \<Rightarrow> 'a element" where
  "lmul A x a = element_constructor (map (\<lambda>c. ring_mul A a c) (coefficients x))"

subsection \<open>degree\<close>

text \<open>
  Python's \<^verbatim>\<open>min\<close> and \<^verbatim>\<open>max\<close> of a list raise \<^verbatim>\<open>ValueError\<close> on the empty list.
\<close>

fun py_min :: "int list \<Rightarrow> error + int" where
  "py_min [] = Inl (ValueError empty_min_msg)"
| "py_min (d # ds) = Inr (fold min ds d)"

fun py_max :: "int list \<Rightarrow> error + int" where
  "py_max [] = Inl (ValueError empty_max_msg)"
| "py_max (d # ds) = Inr (fold max ds d)"

text \<open>
  The loop of \<^verbatim>\<open>degree\<close> over \<^verbatim>\<open>zip(generator_degrees, coefficients)\<close>, with the
  list \<^verbatim>\<open>degrees\<close> as accumulator.  A \<^verbatim>\<open>ValueError\<close> of \<^verbatim>\<open>c.degree()\<close> leaves the
  loop at once.
\<close>

fun collect_degrees ::
  "('a, 's) algebra \<Rightarrow> (int \<times> 'a) list \<Rightarrow> int list \<Rightarrow> string + int list" where
  "collect_degrees A [] degrees = Inr degrees"
| "collect_degrees A ((g, c) # rest) degrees =
     (if \<not> ring_is_zero A c
      then (case ring_degree A c of
              Inl msg \<Rightarrow> Inl msg
            | Inr d \<Rightarrow> collect_degrees A rest (degrees @ [g + d]))
      else collect_degrees A rest degrees)"

definition degree :: "('a, 's) algebra \<Rightarrow> 'a parent \<Rightarrow> 'a element \<Rightarrow> error + int" where
  "degree A P x =
     (if is_zero A x then Inl (ValueError zero_msg)
      else (case collect_degrees A (zip (generator_degrees P) (coefficients x)) [] of
              Inl msg \<Rightarrow> Inl (ValueError nonhom_msg)
            | Inr degrees \<Rightarrow>
                (case py_min degrees of
                   Inl e \<Rightarrow> Inl e
                 | Inr m \<Rightarrow>
                     (case py_max degrees of
                        Inl e \<Rightarrow> Inl e
                      | Inr M \<Rightarrow> if m = M then Inr m else Inl (ValueError nonhom_msg)))))"

subsection \<open>vector\_presentation\<close>

text \<open>
  A vector of the space of dimension \<open>d\<close> is a list of \<open>d\<close> scalars.  \<open>vs_basis d\<close> is
  \<^verbatim>\<open>base_vec.basis()\<close>, the standard basis in order, and \<open>vs_zero d\<close> is
  \<^verbatim>\<open>base_vec.zero()\<close>.
\<close>

definition unit_vector :: "nat \<Rightarrow> nat \<Rightarrow> ('s::comm_ring_1) list" where
  "unit_vector d k = map (\<lambda>j. if j = k then 1 else 0) [0..<d]"

definition vs_basis :: "nat \<Rightarrow> ('s::comm_ring_1) list list" where
  "vs_basis d = map (unit_vector d) [0..<d]"

definition vs_zero :: "nat \<Rightarrow> ('s::comm_ring_1) list" where
  "vs_zero d = replicate d 0"

definition vec_add :: "('s::comm_ring_1) list \<Rightarrow> 's list \<Rightarrow> 's list" where
  "vec_add v w = map2 (+) v w"

definition vec_scale :: "('s::comm_ring_1) \<Rightarrow> 's list \<Rightarrow> 's list" where
  "vec_scale s v = map (\<lambda>t. s * t) v"

text \<open>
  \<^verbatim>\<open>dict(pairs)\<close>: the pairs are stored in order, so of two pairs with one key the later
  one stays.
\<close>

definition py_dict :: "('k \<times> 'v) list \<Rightarrow> ('k \<rightharpoonup> 'v)" where
  "py_dict kvs = map_of (rev kvs)"

text \<open>
  The inner loop over the terms of one coefficient.  \<^verbatim>\<open>monomial * g\<close> is the left
  action of the algebra element \<^verbatim>\<open>monomial\<close> on the generator; a key that is not in the
  dictionary raises \<^verbatim>\<open>KeyError\<close>.
\<close>

fun add_terms ::
  "('a, 's::comm_ring_1) algebra \<Rightarrow> ('a element \<rightharpoonup> 's list) \<Rightarrow> 'a element \<Rightarrow>
   ('s \<times> 'a) list \<Rightarrow> 's list \<Rightarrow> error + 's list" where
  "add_terms A base_dict g [] vector = Inr vector"
| "add_terms A base_dict g ((scalar_coefficient, monomial) # terms) vector =
     (case base_dict (lmul A g monomial) of
        None \<Rightarrow> Inl KeyError
      | Some b \<Rightarrow>
          add_terms A base_dict g terms (vec_add vector (vec_scale scalar_coefficient b)))"

text \<open>The outer loop over \<^verbatim>\<open>sparse_coeffs\<close>.\<close>

fun add_summands ::
  "('a, 's::comm_ring_1) algebra \<Rightarrow> 'a parent \<Rightarrow> ('a element \<rightharpoonup> 's list) \<Rightarrow>
   (nat \<times> 'a) list \<Rightarrow> 's list \<Rightarrow> error + 's list" where
  "add_summands A P base_dict [] vector = Inr vector"
| "add_summands A P base_dict ((summand_index, algebra_element) # rest) vector =
     (case add_terms A base_dict (generator P summand_index)
             (zip (ring_coefficients A algebra_element) (ring_monomials A algebra_element))
             vector of
        Inl e \<Rightarrow> Inl e
      | Inr vector' \<Rightarrow> add_summands A P base_dict rest vector')"

text \<open>
  The result is \<open>Inr None\<close> for Python's \<^verbatim>\<open>None\<close>, \<open>Inr (Some v)\<close> for a vector and
  \<open>Inl e\<close> for an exception.  The method is cached; it has no effect and reads no state,
  so the cache is not modelled.
\<close>

definition vector_presentation ::
  "('a, 's::comm_ring_1) algebra \<Rightarrow> 'a parent \<Rightarrow> 'a element \<Rightarrow> error + 's list option" where
  "vector_presentation A P x =
     (if is_zero A x then Inr None
      else (case degree A P x of
              Inl e \<Rightarrow> Inl e
            | Inr n \<Rightarrow>
                (let bas_gen = basis_elements P n;
                     base_vec = vector_presentation_dim P n;
                     base_dict = py_dict (zip bas_gen (vs_basis base_vec));
                     sparse_coeffs = filter (\<lambda>x. \<not> ring_is_zero A (snd x))
                                       (enumerate 0 (coefficients x))
                 in (case add_summands A P base_dict sparse_coeffs (vs_zero base_vec) of
                       Inl e \<Rightarrow> Inl e
                     | Inr vector \<Rightarrow> Inr (Some vector)))))"

subsection \<open>Sums of elements, and rebuilding an element from its vector\<close>

text \<open>
  Modelled from the spec: the product \<^verbatim>\<open>scalar * x\<close> of a scalar of the ground field
  and an element, inherited from a base class that is not in the source file.  It
  scales the coefficient of each generator.
\<close>

definition scale_elem :: "('a, 's) algebra \<Rightarrow> 's \<Rightarrow> 'a element \<Rightarrow> 'a element" where
  "scale_elem A s x = element_constructor (map (ring_scale A s) (dense_coefficient_list x))"

text \<open>
  Modelled from the spec: the zero element of the parent, whose every coefficient is
  the zero of the algebra.
\<close>

definition zero_elem :: "('a, 's) algebra \<Rightarrow> 'a parent \<Rightarrow> 'a element" where
  "zero_elem A P = element_constructor (replicate (length (generator_degrees P)) (ring_zero A))"

text \<open>
  The round trip of the spec and of the doctest,
  \<^verbatim>\<open>sum(c*b for (c,b) in zip(v, P.basis_elements(n)))\<close>: Python's \<^verbatim>\<open>sum\<close> adds
  from the left, starting at zero.
\<close>

definition reconstruct ::
  "('a, 's) algebra \<Rightarrow> 'a parent \<Rightarrow> 's list \<Rightarrow> int \<Rightarrow> 'a element" where
  "reconstruct A P v n =
     foldl (add_elem A) (zero_elem A P)
       (map (\<lambda>(scalar, basis_element). scale_elem A scalar basis_element)
            (zip v (basis_elements P n)))"

text \<open>
  What the round trip needs of the algebra: its sum is associative and commutative with
  \<open>ring_zero\<close> neutral, \<open>ring_is_zero\<close> recognises \<open>ring_zero\<close>, multiplying by zero and
  by one on the right does what it should, scaling is linear in both arguments, and the
  terms \<^verbatim>\<open>zip(c.coefficients(), c.monomials())\<close> add up to \<open>c\<close>.
\<close>

definition term_sum :: "('a, 's) algebra \<Rightarrow> 'a \<Rightarrow> ('s \<times> 'a) list \<Rightarrow> 'a" where
  "term_sum A a0 terms = foldl (\<lambda>acc (s, m). ring_add A acc (ring_scale A s m)) a0 terms"

definition algebra_laws :: "('a, 's::comm_ring_1) algebra \<Rightarrow> bool" where
  "algebra_laws A \<longleftrightarrow>
     (\<forall>a b c. ring_add A (ring_add A a b) c = ring_add A a (ring_add A b c)) \<and>
     (\<forall>a b. ring_add A a b = ring_add A b a) \<and>
     (\<forall>a. ring_add A (ring_zero A) a = a) \<and>
     (\<forall>a. ring_is_zero A a \<longleftrightarrow> a = ring_zero A) \<and>
     (\<forall>a. ring_mul A a (ring_zero A) = ring_zero A) \<and>
     (\<forall>a. ring_mul A a (ring_one A) = a) \<and>
     (\<forall>s a b. ring_scale A s (ring_add A a b) = ring_add A (ring_scale A s a) (ring_scale A s b)) \<and>
     (\<forall>s t a. ring_scale A (s + t) a = ring_add A (ring_scale A s a) (ring_scale A t a)) \<and>
     (\<forall>s. ring_scale A s (ring_zero A) = ring_zero A) \<and>
     (\<forall>a. ring_scale A 0 a = ring_zero A) \<and>
     (\<forall>c. term_sum A (ring_zero A) (zip (ring_coefficients A c) (ring_monomials A c)) = c)"

text \<open>
  What it needs of the parent in degree \<open>n\<close>: the \<open>i\<close>-th generator has coefficient one
  at \<open>i\<close> and zero elsewhere, the basis in degree \<open>n\<close> has no repetition and as many
  elements as the vector space has dimensions, and every basis element has one
  coefficient per generator.
\<close>

definition unit_elem :: "('a, 's) algebra \<Rightarrow> nat \<Rightarrow> nat \<Rightarrow> 'a \<Rightarrow> 'a element" where
  "unit_elem A k i a =
     element_constructor (map (\<lambda>j. if j = i then a else ring_zero A) [0..<k])"

definition parent_laws :: "('a, 's) algebra \<Rightarrow> 'a parent \<Rightarrow> int \<Rightarrow> bool" where
  "parent_laws A P n \<longleftrightarrow>
     (\<forall>i < length (generator_degrees P).
        generator P i = unit_elem A (length (generator_degrees P)) i (ring_one A)) \<and>
     distinct (basis_elements P n) \<and>
     vector_presentation_dim P n = length (basis_elements P n) \<and>
     (\<forall>b \<in> set (basis_elements P n).
        length (coefficients b) = length (generator_degrees P))"

text \<open>
  Every product \<^verbatim>\<open>monomial * g\<close> that \<^verbatim>\<open>vector_presentation\<close> looks up for \<open>x\<close> is
  a basis element of degree \<open>n\<close>.
\<close>

definition products_in_basis ::
  "('a, 's) algebra \<Rightarrow> 'a parent \<Rightarrow> 'a element \<Rightarrow> int \<Rightarrow> bool" where
  "products_in_basis A P x n \<longleftrightarrow>
     (\<forall>(i, c) \<in> set (enumerate 0 (coefficients x)).
        \<not> ring_is_zero A c \<longrightarrow>
        (\<forall>(s, m) \<in> set (zip (ring_coefficients A c) (ring_monomials A c)).
           lmul A (generator P i) m \<in> set (basis_elements P n)))"

subsection \<open>The term degrees, by index\<close>

text \<open>
  The indices with a nonzero coefficient, in order; the spec computes one term degree
  for each of them.
\<close>

definition nonzero_indices :: "('a, 's) algebra \<Rightarrow> 'a element \<Rightarrow> nat list" where
  "nonzero_indices A x =
     filter (\<lambda>i. \<not> ring_is_zero A (coefficients x ! i)) [0..<length (coefficients x)]"

subsection \<open>An example algebra and two example modules\<close>

text \<open>
  A small connected graded algebra over the integers for the concrete instances: the
  triple \<open>(a, b, c)\<close> is \<open>a\<cdot>1 + b\<cdot>t0 + c\<cdot>t1\<close>, with \<open>t0\<close> and \<open>t1\<close> of degree 6 and
  every product of two of them zero.  Its monomials are \<open>1\<close>, \<open>t0\<close> and \<open>t1\<close>.
\<close>

type_synonym sqz = "int \<times> int \<times> int"

definition sqz_degree :: "sqz \<Rightarrow> string + int" where
  "sqz_degree q =
     (case q of (a, b, c) \<Rightarrow>
        if a = 0 \<and> b = 0 \<and> c = 0 then Inl ''the zero element does not have a well-defined degree''
        else if b = 0 \<and> c = 0 then Inr 0
        else if a = 0 then Inr 6
        else Inl ''element is not homogeneous'')"

definition sqz_coefficients :: "sqz \<Rightarrow> int list" where
  "sqz_coefficients q = (case q of (a, b, c) \<Rightarrow> filter (\<lambda>s. s \<noteq> 0) [a, b, c])"

definition sqz_monomials :: "sqz \<Rightarrow> sqz list" where
  "sqz_monomials q =
     (case q of (a, b, c) \<Rightarrow>
        (if a \<noteq> 0 then [(1, 0, 0)] else []) @
        (if b \<noteq> 0 then [(0, 1, 0)] else []) @
        (if c \<noteq> 0 then [(0, 0, 1)] else []))"

definition sqz_algebra :: "(sqz, int) algebra" where
  "sqz_algebra =
     \<lparr>ring_zero = (0, 0, 0),
      ring_one = (1, 0, 0),
      ring_add = (\<lambda>(a, b, c) (a', b', c'). (a + a', b + b', c + c')),
      ring_mul = (\<lambda>(a, b, c) (a', b', c'). (a * a', a * b' + b * a', a * c' + c * a')),
      ring_scale = (\<lambda>s (a, b, c). (s * a, s * b, s * c)),
      ring_is_zero = (\<lambda>q. q = (0, 0, 0)),
      ring_degree = sqz_degree,
      ring_coefficients = sqz_coefficients,
      ring_monomials = sqz_monomials\<rparr>"

text \<open>The basis of the algebra in degree \<open>d\<close>.\<close>

definition sqz_basis :: "int \<Rightarrow> sqz list" where
  "sqz_basis d = (if d = 0 then [(1, 0, 0)] else if d = 6 then [(0, 1, 0), (0, 0, 1)] else [])"

text \<open>
  The free module over the example algebra on generators of the degrees \<open>gds\<close>: its
  basis in degree \<open>n\<close> lists, generator by generator, the products of the algebra's
  basis elements of the complementary degree with the generator.
\<close>

definition sqz_basis_elements :: "int list \<Rightarrow> int \<Rightarrow> sqz element list" where
  "sqz_basis_elements gds n =
     concat (map (\<lambda>i. map (\<lambda>a. lmul sqz_algebra (unit_elem sqz_algebra (length gds) i (1, 0, 0)) a)
                           (sqz_basis (n - gds ! i)))
                 [0..<length gds])"

definition sqz_parent :: "int list \<Rightarrow> sqz parent" where
  "sqz_parent gds =
     \<lparr>generator_degrees = gds,
      basis_elements = sqz_basis_elements gds,
      vector_presentation_dim = (\<lambda>n. length (sqz_basis_elements gds n)),
      generator = (\<lambda>i. unit_elem sqz_algebra (length gds) i (1, 0, 0))\<rparr>"

text \<open>
  The same module on generators of degrees 0 and 6, with a basis that leaves
  \<open>t1\<cdot>g0\<close> out in every degree.
\<close>

definition sqz_short_parent :: "sqz parent" where
  "sqz_short_parent =
     (sqz_parent [0, 6])
       \<lparr>basis_elements := (\<lambda>n. filter (\<lambda>b. b \<noteq> element_constructor [(0, 0, 1), (0, 0, 0)])
                                        (sqz_basis_elements [0, 6] n)),
        vector_presentation_dim := (\<lambda>n. 2)\<rparr>"

text \<open>
  The example algebra once more, as an algebra may answer the two calls of the inner
  loop: \<^verbatim>\<open>c.coefficients()\<close> lists the scalars of \<open>c\<close> in the order \<open>1\<close>, \<open>t0\<close>, \<open>t1\<close>
  of its monomials, and \<^verbatim>\<open>c.monomials()\<close> lists the same monomials in the opposite
  order.  Both lists are right; they are the terms of \<open>c\<close>, each in an order of its own.
\<close>

definition sqz_unaligned_algebra :: "(sqz, int) algebra" where
  "sqz_unaligned_algebra = sqz_algebra\<lparr>ring_monomials := (\<lambda>q. rev (sqz_monomials q))\<rparr>"

section \<open>Properties of degree\<close>

subsection \<open>Auxiliary facts about the loop and about min and max\<close>

lemma py_min_Min: "ds \<noteq> [] \<Longrightarrow> py_min ds = Inr (Min (set ds))"
proof (cases ds)
  case (Cons d rest)
  then show ?thesis using Min.set_eq_fold[of d rest] by simp
qed simp

lemma py_max_Max: "ds \<noteq> [] \<Longrightarrow> py_max ds = Inr (Max (set ds))"
proof (cases ds)
  case (Cons d rest)
  then show ?thesis using Max.set_eq_fold[of d rest] by simp
qed simp

lemma collect_degrees_fails:
  "(g, c) \<in> set zs \<Longrightarrow> \<not> ring_is_zero A c \<Longrightarrow> ring_degree A c = Inl msg \<Longrightarrow>
   \<exists>m. collect_degrees A zs acc = Inl m"
  by (induction A zs acc rule: collect_degrees.induct) (auto split: sum.splits)

lemma collect_degrees_keeps:
  "collect_degrees A zs acc = Inr ds \<Longrightarrow> set acc \<subseteq> set ds"
proof (induction A zs acc arbitrary: ds rule: collect_degrees.induct)
  case (1 A degrees)
  then show ?case by simp
next
  case (2 A g c rest degrees)
  then show ?case by (fastforce split: if_splits sum.splits)
qed

lemma collect_degrees_member:
  "collect_degrees A zs acc = Inr ds \<Longrightarrow> (g, c) \<in> set zs \<Longrightarrow> \<not> ring_is_zero A c \<Longrightarrow>
   ring_degree A c = Inr d \<Longrightarrow> g + d \<in> set ds"
proof (induction A zs acc arbitrary: ds rule: collect_degrees.induct)
  case (1 A degrees)
  then show ?case by simp
next
  case (2 A g' c' rest degrees)
  show ?case
  proof (cases "(g, c) = (g', c')")
    case True
    with 2 have "collect_degrees A rest (degrees @ [g + d]) = Inr ds" by simp
    from collect_degrees_keeps[OF this] show ?thesis by simp
  next
    case False
    with 2 show ?thesis by (auto split: if_splits sum.splits)
  qed
qed

lemma collect_degrees_indexed:
  "\<forall>i \<in> set is. \<not> ring_is_zero A (cs ! i) \<longrightarrow> ring_degree A (cs ! i) = Inr (d i) \<Longrightarrow>
   collect_degrees A (map (\<lambda>i. (gs ! i, cs ! i)) is) acc =
     Inr (acc @ map (\<lambda>i. gs ! i + d i) (filter (\<lambda>i. \<not> ring_is_zero A (cs ! i)) is))"
  by (induction "is" arbitrary: acc) auto

lemma zip_as_map_nth:
  "length gs = length cs \<Longrightarrow> zip gs cs = map (\<lambda>i. (gs ! i, cs ! i)) [0..<length cs]"
  by (rule nth_equalityI) auto

lemma nonzero_coefficient_exists:
  assumes "\<not> is_zero A x"
  shows "\<exists>i. i < length (coefficients x) \<and> \<not> ring_is_zero A (coefficients x ! i)"
proof -
  from assms obtain c where c: "c \<in> set (coefficients x)" "\<not> ring_is_zero A c"
    by (auto simp: is_zero_def coefficients_def list_all_iff)
  then obtain i where "i < length (coefficients x)" "coefficients x ! i = c"
    by (auto simp: in_set_conv_nth)
  with c show ?thesis by auto
qed

lemma nonzero_indices_nonempty:
  assumes "\<not> is_zero A x"
  shows "nonzero_indices A x \<noteq> []"
proof -
  from nonzero_coefficient_exists[OF assms] obtain i where
    "i < length (coefficients x)" "\<not> ring_is_zero A (coefficients x ! i)" by blast
  then have "i \<in> set (nonzero_indices A x)"
    by (simp add: nonzero_indices_def)
  then show ?thesis by auto
qed

lemma degree_of_degrees:
  "\<not> is_zero A x \<Longrightarrow>
   collect_degrees A (zip (generator_degrees P) (coefficients x)) [] = Inr ds \<Longrightarrow> ds \<noteq> [] \<Longrightarrow>
   degree A P x = (if Min (set ds) = Max (set ds) then Inr (Min (set ds))
                   else Inl (ValueError nonhom_msg))"
  by (simp add: degree_def py_min_Min py_max_Max)

lemma degree_of_failure:
  "\<not> is_zero A x \<Longrightarrow>
   collect_degrees A (zip (generator_degrees P) (coefficients x)) [] = Inl msg \<Longrightarrow>
   degree A P x = Inl (ValueError nonhom_msg)"
  by (simp add: degree_def)

lemma vector_presentation_degree_fails:
  "\<not> is_zero A x \<Longrightarrow> degree A P x = Inl e \<Longrightarrow> vector_presentation A P x = Inl e"
  by (simp add: vector_presentation_def)

lemma collect_degrees_succeeds:
  "\<forall>(g, c) \<in> set zs. \<not> ring_is_zero A c \<longrightarrow> (\<exists>d. ring_degree A c = Inr d) \<Longrightarrow>
   \<exists>ds. collect_degrees A zs acc = Inr ds"
  by (induction A zs acc rule: collect_degrees.induct) auto

lemma nonzero_coefficient_not_zero_elem:
  "i < length (coefficients x) \<Longrightarrow> \<not> ring_is_zero A (coefficients x ! i) \<Longrightarrow> \<not> is_zero A x"
  by (auto simp: is_zero_def coefficients_def list_all_iff)

lemma zip_nth_member:
  "i < length gs \<Longrightarrow> i < length cs \<Longrightarrow> (gs ! i, cs ! i) \<in> set (zip gs cs)"
  by (auto simp: set_zip)


subsection \<open>The zero element\<close>

text \<open>
  Claim C2.  For the zero element, whose every coefficient is zero, \<^verbatim>\<open>degree()\<close>
  fails with the zero-element \<^verbatim>\<open>ValueError\<close>, and \<^verbatim>\<open>vector_presentation()\<close>
  returns \<^verbatim>\<open>None\<close> and raises nothing.
\<close>

theorem zero_element_no_degree:
  "list_all (ring_is_zero A) (coefficients x) \<Longrightarrow>
   degree A P x = Inl (ValueError zero_msg) \<and> vector_presentation A P x = Inr None"
  by (simp add: degree_def vector_presentation_def is_zero_def coefficients_def)

text \<open>The zero element of the module on generators of degrees 0 and 1.\<close>

theorem zero_element_no_degree_witness:
  "list_all (ring_is_zero sqz_algebra) (coefficients (element_constructor [(0, 0, 0), (0, 0, 0)])) \<and>
   degree sqz_algebra (sqz_parent [0, 1]) (element_constructor [(0, 0, 0), (0, 0, 0)])
     = Inl (ValueError zero_msg) \<and>
   vector_presentation sqz_algebra (sqz_parent [0, 1]) (element_constructor [(0, 0, 0), (0, 0, 0)])
     = Inr None"
proof -
  have h: "list_all (ring_is_zero sqz_algebra)
             (coefficients (element_constructor [(0, 0, 0), (0, 0, 0)]))"
    by (simp add: sqz_algebra_def coefficients_def element_constructor_def)
  from zero_element_no_degree[OF h, of "sqz_parent [0, 1]"] h show ?thesis by simp
qed

subsection \<open>Elements with terms of two degrees\<close>

text \<open>
  Claim C3.  When two nonzero coefficients, at the indices \<open>i\<close> and \<open>j\<close>, give the
  term degrees \<open>generator_degrees[i] + coefficients[i].degree()\<close> and
  \<open>generator_degrees[j] + coefficients[j].degree()\<close> and these differ, both
  \<^verbatim>\<open>degree()\<close> and \<^verbatim>\<open>vector_presentation()\<close> fail with the nonhomogeneous-element
  \<^verbatim>\<open>ValueError\<close>.
\<close>

theorem mixed_degrees_fail:
  assumes i: "i < length (generator_degrees P)" "i < length (coefficients x)"
    and j: "j < length (generator_degrees P)" "j < length (coefficients x)"
    and nzi: "\<not> ring_is_zero A (coefficients x ! i)"
    and nzj: "\<not> ring_is_zero A (coefficients x ! j)"
    and di: "ring_degree A (coefficients x ! i) = Inr di"
    and dj: "ring_degree A (coefficients x ! j) = Inr dj"
    and neq: "generator_degrees P ! i + di \<noteq> generator_degrees P ! j + dj"
  shows "degree A P x = Inl (ValueError nonhom_msg) \<and>
         vector_presentation A P x = Inl (ValueError nonhom_msg)"
proof -
  let ?zs = "zip (generator_degrees P) (coefficients x)"
  have nz: "\<not> is_zero A x"
    using i(2) nzi by (rule nonzero_coefficient_not_zero_elem)
  have "degree A P x = Inl (ValueError nonhom_msg)"
  proof (cases "collect_degrees A ?zs []")
    case (Inl msg)
    with nz show ?thesis by (rule degree_of_failure)
  next
    case (Inr ds)
    have mi: "generator_degrees P ! i + di \<in> set ds"
      using Inr zip_nth_member[OF i] nzi di by (rule collect_degrees_member)
    have mj: "generator_degrees P ! j + dj \<in> set ds"
      using Inr zip_nth_member[OF j] nzj dj by (rule collect_degrees_member)
    from mi have ne: "ds \<noteq> []" by auto
    have "Min (set ds) \<noteq> Max (set ds)"
    proof
      assume eq: "Min (set ds) = Max (set ds)"
      have "\<And>v. v \<in> set ds \<Longrightarrow> v = Min (set ds)"
      proof -
        fix v assume v: "v \<in> set ds"
        then have "Min (set ds) \<le> v" "v \<le> Max (set ds)" by simp_all
        with eq show "v = Min (set ds)" by simp
      qed
      from this[OF mi] this[OF mj] neq show False by simp
    qed
    with degree_of_degrees[OF nz Inr ne] show ?thesis by simp
  qed
  with nz show ?thesis by (simp add: vector_presentation_degree_fails)
qed

text \<open>
  In the module on generators of degrees 0 and 1, the element \<open>(t0 + t1)\<cdot>g0 + 1\<cdot>g1\<close>
  has terms of the degrees 6 and 1.
\<close>

theorem mixed_degrees_fail_witness:
  "degree sqz_algebra (sqz_parent [0, 1]) (element_constructor [(0, 1, 1), (1, 0, 0)])
     = Inl (ValueError nonhom_msg) \<and>
   vector_presentation sqz_algebra (sqz_parent [0, 1]) (element_constructor [(0, 1, 1), (1, 0, 0)])
     = Inl (ValueError nonhom_msg)"
  by (rule mixed_degrees_fail[where i = 0 and j = 1 and di = 6 and dj = 0])
     (simp_all add: sqz_parent_def sqz_algebra_def sqz_degree_def coefficients_def
        element_constructor_def)

subsection \<open>A coefficient without a degree\<close>

text \<open>
  Claim C4.  When \<^verbatim>\<open>c.degree()\<close> of a nonzero coefficient raises its
  \<^verbatim>\<open>ValueError\<close>, whatever its message, \<^verbatim>\<open>degree()\<close> of the element fails with the
  nonhomogeneous-element \<^verbatim>\<open>ValueError\<close>: the inner error is replaced, not passed on.
\<close>

theorem coefficient_failure_resignalled:
  assumes "i < length (generator_degrees P)" "i < length (coefficients x)"
    and "\<not> ring_is_zero A (coefficients x ! i)"
    and "ring_degree A (coefficients x ! i) = Inl msg"
  shows "degree A P x = Inl (ValueError nonhom_msg)"
proof -
  have nz: "\<not> is_zero A x"
    using assms(2,3) by (rule nonzero_coefficient_not_zero_elem)
  from collect_degrees_fails[OF zip_nth_member[OF assms(1,2)] assms(3,4)]
  obtain m where "collect_degrees A (zip (generator_degrees P) (coefficients x)) [] = Inl m"
    by blast
  with nz show ?thesis by (rule degree_of_failure)
qed

text \<open>
  The coefficient \<open>1 + t0\<close> of \<open>g1\<close> is not homogeneous in the example algebra, whose
  own message differs from the one that \<^verbatim>\<open>degree()\<close> of the element reports.
\<close>

theorem coefficient_failure_resignalled_witness:
  "ring_degree sqz_algebra (coefficients (element_constructor [(0, 1, 0), (1, 1, 0)]) ! 1)
     = Inl ''element is not homogeneous'' \<and>
   degree sqz_algebra (sqz_parent [0, 6]) (element_constructor [(0, 1, 0), (1, 1, 0)])
     = Inl (ValueError nonhom_msg)"
proof -
  have d: "ring_degree sqz_algebra (coefficients (element_constructor [(0, 1, 0), (1, 1, 0)]) ! 1)
             = Inl ''element is not homogeneous''"
    by (simp add: sqz_algebra_def sqz_degree_def coefficients_def element_constructor_def)
  have "degree sqz_algebra (sqz_parent [0, 6]) (element_constructor [(0, 1, 0), (1, 1, 0)])
          = Inl (ValueError nonhom_msg)"
    by (rule coefficient_failure_resignalled[where i = 1, OF _ _ _ d])
       (simp_all add: sqz_parent_def sqz_algebra_def coefficients_def element_constructor_def)
  with d show ?thesis by simp
qed

subsection \<open>The degree of a homogeneous element\<close>

text \<open>
  Claim C5.  Let \<open>x\<close> be a nonzero element with one coefficient per generator, and let
  \<open>d i\<close> be the degree that \<^verbatim>\<open>coefficients[i].degree()\<close> returns at each index \<open>i\<close>
  with a nonzero coefficient.  Then the list that \<^verbatim>\<open>degree()\<close> collects is
  \<open>generator_degrees[i] + d i\<close> over exactly these indices, in order; it is not empty;
  and \<^verbatim>\<open>degree()\<close> returns its minimum when minimum and maximum agree (and fails with
  the nonhomogeneous-element error when they do not).
\<close>

theorem degree_term_degrees:
  assumes nz: "\<not> is_zero A x"
    and len: "length (coefficients x) = length (generator_degrees P)"
    and hom: "\<forall>i \<in> set (nonzero_indices A x). ring_degree A (coefficients x ! i) = Inr (d i)"
  shows "collect_degrees A (zip (generator_degrees P) (coefficients x)) [] =
           Inr (map (\<lambda>i. generator_degrees P ! i + d i) (nonzero_indices A x)) \<and>
         map (\<lambda>i. generator_degrees P ! i + d i) (nonzero_indices A x) \<noteq> [] \<and>
         degree A P x =
           (if Min (set (map (\<lambda>i. generator_degrees P ! i + d i) (nonzero_indices A x))) =
               Max (set (map (\<lambda>i. generator_degrees P ! i + d i) (nonzero_indices A x)))
            then Inr (Min (set (map (\<lambda>i. generator_degrees P ! i + d i) (nonzero_indices A x))))
            else Inl (ValueError nonhom_msg))"
proof -
  let ?ds = "map (\<lambda>i. generator_degrees P ! i + d i) (nonzero_indices A x)"
  have z: "zip (generator_degrees P) (coefficients x) =
           map (\<lambda>i. (generator_degrees P ! i, coefficients x ! i)) [0..<length (coefficients x)]"
    using len by (simp add: zip_as_map_nth)
  have "\<forall>i \<in> set [0..<length (coefficients x)].
          \<not> ring_is_zero A (coefficients x ! i) \<longrightarrow> ring_degree A (coefficients x ! i) = Inr (d i)"
    using hom by (simp add: nonzero_indices_def)
  from collect_degrees_indexed[OF this, of "generator_degrees P" "[]"]
  have c: "collect_degrees A (zip (generator_degrees P) (coefficients x)) [] = Inr ?ds"
    by (simp add: z nonzero_indices_def)
  have ne: "?ds \<noteq> []" using nonzero_indices_nonempty[OF nz] by simp
  from degree_of_degrees[OF nz c ne] c ne show ?thesis by simp
qed

text \<open>
  In the module on generators of degrees 0 and 6, the element \<open>(t0 + t1)\<cdot>g0 + 1\<cdot>g1\<close>
  has two terms, both of degree 6.
\<close>

theorem degree_term_degrees_witness:
  "\<not> is_zero sqz_algebra (element_constructor [(0, 1, 1), (1, 0, 0)]) \<and>
   nonzero_indices sqz_algebra (element_constructor [(0, 1, 1), (1, 0, 0)]) = [0, 1] \<and>
   collect_degrees sqz_algebra
     (zip (generator_degrees (sqz_parent [0, 6]))
          (coefficients (element_constructor [(0, 1, 1), (1, 0, 0)]))) [] = Inr [6, 6] \<and>
   degree sqz_algebra (sqz_parent [0, 6]) (element_constructor [(0, 1, 1), (1, 0, 0)]) = Inr 6"
proof -
  let ?x = "element_constructor [(0, 1, 1), (1, 0, 0)] :: sqz element"
  let ?d = "\<lambda>i::nat. if i = 0 then 6 else (0::int)"
  have nz: "\<not> is_zero sqz_algebra ?x"
    by (simp add: is_zero_def sqz_algebra_def element_constructor_def)
  have len: "length (coefficients ?x) = length (generator_degrees (sqz_parent [0, 6]))"
    by (simp add: coefficients_def element_constructor_def sqz_parent_def)
  have ix: "nonzero_indices sqz_algebra ?x = [0, 1]"
    by code_simp
  have hom: "\<forall>i \<in> set (nonzero_indices sqz_algebra ?x).
               ring_degree sqz_algebra (coefficients ?x ! i) = Inr (?d i)"
    unfolding ix
    by (simp add: sqz_algebra_def sqz_degree_def coefficients_def element_constructor_def)
  from degree_term_degrees[OF nz len hom] nz ix show ?thesis
    by (simp add: sqz_parent_def)
qed

subsection \<open>The collected list is never empty\<close>

text \<open>
  Claim C10.  Let \<open>x\<close> be a nonzero element with one coefficient per generator, on which
  no call of \<^verbatim>\<open>c.degree()\<close> fails.  Then the loop of \<^verbatim>\<open>degree()\<close> ends with a
  non-empty list, so \<^verbatim>\<open>min\<close> and \<^verbatim>\<open>max\<close> both return; \<^verbatim>\<open>degree()\<close> returns a
  degree or fails with the nonhomogeneous-element error, and it fails neither with the
  zero-element error nor with the \<^verbatim>\<open>ValueError\<close> of an empty sequence.
\<close>

theorem degrees_list_nonempty:
  assumes nz: "\<not> is_zero A x"
    and len: "length (coefficients x) = length (generator_degrees P)"
    and ok: "\<forall>c \<in> set (coefficients x). \<not> ring_is_zero A c \<longrightarrow> (\<exists>d. ring_degree A c = Inr d)"
  shows "\<exists>ds. collect_degrees A (zip (generator_degrees P) (coefficients x)) [] = Inr ds \<and>
              ds \<noteq> [] \<and>
              py_min ds = Inr (Min (set ds)) \<and> py_max ds = Inr (Max (set ds)) \<and>
              (degree A P x = Inr (Min (set ds)) \<or>
               degree A P x = Inl (ValueError nonhom_msg)) \<and>
              degree A P x \<noteq> Inl (ValueError zero_msg) \<and>
              degree A P x \<noteq> Inl (ValueError empty_min_msg) \<and>
              degree A P x \<noteq> Inl (ValueError empty_max_msg)"
proof -
  let ?zs = "zip (generator_degrees P) (coefficients x)"
  have "\<forall>(g, c) \<in> set ?zs. \<not> ring_is_zero A c \<longrightarrow> (\<exists>d. ring_degree A c = Inr d)"
    using ok by (auto dest: set_zip_rightD)
  from collect_degrees_succeeds[OF this, of "[]"]
  obtain ds where ds: "collect_degrees A ?zs [] = Inr ds" by blast
  from nonzero_coefficient_exists[OF nz] obtain i where
    i: "i < length (coefficients x)" "\<not> ring_is_zero A (coefficients x ! i)"
    by blast
  from ok i obtain d where d: "ring_degree A (coefficients x ! i) = Inr d" by auto
  have "i < length (generator_degrees P)" using i len by simp
  from collect_degrees_member[OF ds zip_nth_member[OF this i(1)] i(2) d]
  have ne: "ds \<noteq> []" by auto
  have "degree A P x = Inr (Min (set ds)) \<or> degree A P x = Inl (ValueError nonhom_msg)"
    using degree_of_degrees[OF nz ds ne] by (simp split: if_splits)
  moreover have "nonhom_msg \<noteq> zero_msg" "nonhom_msg \<noteq> empty_min_msg" "nonhom_msg \<noteq> empty_max_msg"
    by (simp_all add: nonhom_msg_def zero_msg_def empty_min_msg_def empty_max_msg_def)
  ultimately show ?thesis
    using ds ne by (auto simp: py_min_Min py_max_Max)
qed

text \<open>The element \<open>t0\<cdot>g0\<close> of the module on generators of degrees 0 and 6.\<close>

theorem degrees_list_nonempty_witness:
  "\<not> is_zero sqz_algebra (element_constructor [(0, 1, 0), (0, 0, 0)]) \<and>
   (\<exists>ds. collect_degrees sqz_algebra
           (zip (generator_degrees (sqz_parent [0, 6]))
                (coefficients (element_constructor [(0, 1, 0), (0, 0, 0)]))) [] = Inr ds \<and>
         ds \<noteq> []) \<and>
   degree sqz_algebra (sqz_parent [0, 6]) (element_constructor [(0, 1, 0), (0, 0, 0)])
     \<noteq> Inl (ValueError empty_min_msg)"
proof -
  let ?x = "element_constructor [(0, 1, 0), (0, 0, 0)] :: sqz element"
  have nz: "\<not> is_zero sqz_algebra ?x"
    by (simp add: is_zero_def sqz_algebra_def element_constructor_def)
  have len: "length (coefficients ?x) = length (generator_degrees (sqz_parent [0, 6]))"
    by (simp add: coefficients_def element_constructor_def sqz_parent_def)
  have ok: "\<forall>c \<in> set (coefficients ?x).
              \<not> ring_is_zero sqz_algebra c \<longrightarrow> (\<exists>d. ring_degree sqz_algebra c = Inr d)"
    by (simp add: sqz_algebra_def sqz_degree_def coefficients_def element_constructor_def)
  from degrees_list_nonempty[OF nz len ok] nz show ?thesis
    by blast
qed

section \<open>The left action\<close>

text \<open>
  Claim C6.  The element \<open>a \<star> x\<close> that \<^verbatim>\<open>_lmul_\<close> returns has as many coefficients
  as \<open>x\<close>, and its coefficient at each index \<open>i\<close> is the product
  \<open>a \<cdot> x.coefficients()[i]\<close> of the algebra, with \<open>a\<close> on the left.  The method is
  a function of the values \<open>x\<close> and \<open>a\<close> and returns a new element; it assigns to
  nothing.
\<close>

theorem lmul_coefficients:
  "length (coefficients (lmul A x a)) = length (coefficients x) \<and>
   (\<forall>i < length (coefficients x).
      coefficients (lmul A x a) ! i = ring_mul A a (coefficients x ! i))"
  by (simp add: lmul_def coefficients_def element_constructor_def)

text \<open>The element \<open>t0\<cdot>g0 + 2\<cdot>g1\<close> and the algebra element \<open>3 + t1\<close>.\<close>

theorem lmul_coefficients_witness:
  "(1::nat) < length (coefficients (element_constructor [(0, 1, 0), (2, 0, 0)] :: sqz element)) \<and>
   coefficients (lmul sqz_algebra (element_constructor [(0, 1, 0), (2, 0, 0)]) (3, 0, 1)) ! 1
     = ring_mul sqz_algebra (3, 0, 1) (coefficients (element_constructor [(0, 1, 0), (2, 0, 0)]) ! 1) \<and>
   coefficients (lmul sqz_algebra (element_constructor [(0, 1, 0), (2, 0, 0)]) (3, 0, 1))
     = [(0, 3, 0), (6, 0, 2)]"
proof -
  let ?x = "element_constructor [(0, 1, 0), (2, 0, 0)] :: sqz element"
  have h: "(1::nat) < length (coefficients ?x)"
    by (simp add: coefficients_def element_constructor_def)
  have v: "coefficients (lmul sqz_algebra ?x (3, 0, 1)) = [(0, 3, 0), (6, 0, 2)]"
    by (simp add: lmul_def coefficients_def element_constructor_def sqz_algebra_def)
  from lmul_coefficients[of sqz_algebra ?x "(3, 0, 1)"] h
  have "coefficients (lmul sqz_algebra ?x (3, 0, 1)) ! 1
          = ring_mul sqz_algebra (3, 0, 1) (coefficients ?x ! 1)"
    by blast
  with h v show ?thesis by blast
qed

text \<open>
  Claim C7.  The action is additive in both arguments: over an algebra whose product
  distributes over its sum on both sides, \<open>(a + b) \<star> x = a \<star> x + b \<star> x\<close> and
  \<open>a \<star> (x + y) = a \<star> x + a \<star> y\<close>, for all algebra elements \<open>a\<close>, \<open>b\<close> and all
  elements \<open>x\<close>, \<open>y\<close> (of one parent, in particular).
\<close>

theorem lmul_bilinear:
  assumes "\<forall>a b c. ring_mul A (ring_add A a b) c = ring_add A (ring_mul A a c) (ring_mul A b c)"
    and "\<forall>a b c. ring_mul A a (ring_add A b c) = ring_add A (ring_mul A a b) (ring_mul A a c)"
  shows "lmul A x (ring_add A a b) = add_elem A (lmul A x a) (lmul A x b) \<and>
         lmul A (add_elem A x y) a = add_elem A (lmul A x a) (lmul A y a)"
proof
  show "lmul A x (ring_add A a b) = add_elem A (lmul A x a) (lmul A x b)"
    using assms(1)
    by (simp add: lmul_def add_elem_def coefficients_def element_constructor_def
        zip_map_map map_zip_map zip_same_conv_map)
  show "lmul A (add_elem A x y) a = add_elem A (lmul A x a) (lmul A y a)"
    using assms(2)
    by (simp add: lmul_def add_elem_def coefficients_def element_constructor_def
        zip_map_map map_zip_map split_def)
qed

text \<open>The two laws hold in the example algebra.\<close>

theorem lmul_bilinear_witness:
  "lmul sqz_algebra (element_constructor [(0, 1, 0), (2, 0, 0)]) (ring_add sqz_algebra (3, 0, 1) (1, 1, 0))
     = add_elem sqz_algebra (lmul sqz_algebra (element_constructor [(0, 1, 0), (2, 0, 0)]) (3, 0, 1))
                            (lmul sqz_algebra (element_constructor [(0, 1, 0), (2, 0, 0)]) (1, 1, 0)) \<and>
   lmul sqz_algebra (add_elem sqz_algebra (element_constructor [(0, 1, 0), (2, 0, 0)])
                                          (element_constructor [(1, 0, 5), (0, 0, 1)])) (3, 0, 1)
     = add_elem sqz_algebra (lmul sqz_algebra (element_constructor [(0, 1, 0), (2, 0, 0)]) (3, 0, 1))
                            (lmul sqz_algebra (element_constructor [(1, 0, 5), (0, 0, 1)]) (3, 0, 1)) \<and>
   lmul sqz_algebra (element_constructor [(0, 1, 0), (2, 0, 0)]) (ring_add sqz_algebra (3, 0, 1) (1, 1, 0))
     = element_constructor [(0, 4, 0), (8, 2, 2)]"
proof -
  have l: "\<forall>a b c. ring_mul sqz_algebra (ring_add sqz_algebra a b) c
             = ring_add sqz_algebra (ring_mul sqz_algebra a c) (ring_mul sqz_algebra b c)"
    by (auto simp: sqz_algebra_def algebra_simps)
  have r: "\<forall>a b c. ring_mul sqz_algebra a (ring_add sqz_algebra b c)
             = ring_add sqz_algebra (ring_mul sqz_algebra a b) (ring_mul sqz_algebra a c)"
    by (auto simp: sqz_algebra_def algebra_simps)
  have v: "lmul sqz_algebra (element_constructor [(0, 1, 0), (2, 0, 0)])
             (ring_add sqz_algebra (3, 0, 1) (1, 1, 0)) = element_constructor [(0, 4, 0), (8, 2, 2)]"
    by (simp add: lmul_def coefficients_def element_constructor_def sqz_algebra_def)
  from lmul_bilinear[OF l r, of "element_constructor [(0, 1, 0), (2, 0, 0)]" "(3, 0, 1)" "(1, 1, 0)"
      "element_constructor [(1, 0, 5), (0, 0, 1)]"] v
  show ?thesis by blast
qed

section \<open>The scenario with generators of degrees 0 and 1\<close>

text \<open>
  Claim C8 says that, with generators \<open>g0\<close> of degree 0 and \<open>g1\<close> of degree 1 and an
  algebra element \<open>q = t0 + t1\<close> of degree 6, the element \<open>x = q\<cdot>g0 + 1\<cdot>g1\<close> has degree
  7 and a vector presentation.  In the example algebra this is false: the two terms of
  \<open>x\<close> have the degrees \<open>0 + 6\<close> and \<open>1 + 0\<close>, so \<^verbatim>\<open>degree()\<close> does not return 7: it
  fails, and so does \<^verbatim>\<open>vector_presentation()\<close>.
\<close>

theorem scenario_counterexample:
  "generator_degrees (sqz_parent [0, 1]) = [0, 1] \<and>
   ring_add sqz_algebra (0, 1, 0) (0, 0, 1) = (0, 1, 1) \<and>
   ring_degree sqz_algebra (0, 1, 1) = Inr 6 \<and>
   add_elem sqz_algebra (lmul sqz_algebra (generator (sqz_parent [0, 1]) 0) (0, 1, 1))
                        (lmul sqz_algebra (generator (sqz_parent [0, 1]) 1) (ring_one sqz_algebra))
     = element_constructor [(0, 1, 1), ring_one sqz_algebra] \<and>
   degree sqz_algebra (sqz_parent [0, 1]) (element_constructor [(0, 1, 1), ring_one sqz_algebra])
     \<noteq> Inr 7 \<and>
   degree sqz_algebra (sqz_parent [0, 1]) (element_constructor [(0, 1, 1), ring_one sqz_algebra])
     = Inl (ValueError nonhom_msg) \<and>
   vector_presentation sqz_algebra (sqz_parent [0, 1])
     (element_constructor [(0, 1, 1), ring_one sqz_algebra]) = Inl (ValueError nonhom_msg)"
  by code_simp

text \<open>
  Claim C8, amended.  With generators of degrees 0 and 1, a nonzero algebra element \<open>q\<close>
  of degree 6, and the one of the algebra nonzero and of degree 0, the element
  \<open>x = q\<cdot>g0 + 1\<cdot>g1\<close> has \<^verbatim>\<open>coefficients() == [q, 1]\<close>; its term degrees are 6 and 1,
  and both \<^verbatim>\<open>degree()\<close> and \<^verbatim>\<open>vector_presentation()\<close> fail with the
  nonhomogeneous-element \<^verbatim>\<open>ValueError\<close>.
\<close>

theorem scenario_is_nonhomogeneous:
  assumes gd: "generator_degrees P = [0, 1]"
    and q: "ring_degree A q = Inr 6" "\<not> ring_is_zero A q"
    and one: "ring_degree A (ring_one A) = Inr 0" "\<not> ring_is_zero A (ring_one A)"
  shows "coefficients (element_constructor [q, ring_one A]) = [q, ring_one A] \<and>
         degree A P (element_constructor [q, ring_one A]) = Inl (ValueError nonhom_msg) \<and>
         vector_presentation A P (element_constructor [q, ring_one A]) = Inl (ValueError nonhom_msg)"
proof -
  let ?x = "element_constructor [q, ring_one A]"
  have c: "coefficients ?x = [q, ring_one A]"
    by (simp add: coefficients_def element_constructor_def)
  have nz: "\<not> is_zero A ?x"
    using q(2) by (simp add: is_zero_def element_constructor_def)
  have "collect_degrees A (zip (generator_degrees P) (coefficients ?x)) [] = Inr [6, 1]"
    using q one by (simp add: gd c)
  from degree_of_degrees[OF nz this]
  have d: "degree A P ?x = Inl (ValueError nonhom_msg)" by simp
  from c d vector_presentation_degree_fails[OF nz d] show ?thesis by simp
qed

text \<open>The scenario in the example algebra, with \<open>q = t0 + t1\<close>.\<close>

theorem scenario_is_nonhomogeneous_witness:
  "generator_degrees (sqz_parent [0, 1]) = [0, 1] \<and>
   ring_degree sqz_algebra (0, 1, 1) = Inr 6 \<and>
   coefficients (element_constructor [(0, 1, 1), ring_one sqz_algebra])
     = [(0, 1, 1), ring_one sqz_algebra] \<and>
   degree sqz_algebra (sqz_parent [0, 1]) (element_constructor [(0, 1, 1), ring_one sqz_algebra])
     = Inl (ValueError nonhom_msg) \<and>
   vector_presentation sqz_algebra (sqz_parent [0, 1])
     (element_constructor [(0, 1, 1), ring_one sqz_algebra]) = Inl (ValueError nonhom_msg)"
proof -
  have gd: "generator_degrees (sqz_parent [0, 1]) = [0, 1]"
    by (simp add: sqz_parent_def)
  have q: "ring_degree sqz_algebra (0, 1, 1) = Inr 6" "\<not> ring_is_zero sqz_algebra (0, 1, 1)"
    by (simp_all add: sqz_algebra_def sqz_degree_def)
  have one: "ring_degree sqz_algebra (ring_one sqz_algebra) = Inr 0"
    "\<not> ring_is_zero sqz_algebra (ring_one sqz_algebra)"
    by (simp_all add: sqz_algebra_def sqz_degree_def)
  from scenario_is_nonhomogeneous[OF gd q one] gd q(1) show ?thesis by simp
qed

section \<open>Properties of vector\_presentation\<close>

subsection \<open>The two loops can only fail with KeyError\<close>

lemma py_dict_keys: "py_dict (zip ks vs) k = Some v \<Longrightarrow> k \<in> set ks"
  by (auto simp: py_dict_def dest!: map_of_SomeD dest: set_zip_leftD)

lemma add_terms_error: "add_terms A bd g ts v = Inl e \<Longrightarrow> e = KeyError"
  by (induction A bd g ts v rule: add_terms.induct) (auto split: option.splits)

lemma add_terms_missing:
  "(s, m) \<in> set ts \<Longrightarrow> bd (lmul A g m) = None \<Longrightarrow> add_terms A bd g ts v = Inl KeyError"
  by (induction A bd g ts v rule: add_terms.induct) (auto split: option.splits)

lemma add_summands_error: "add_summands A P bd sp v = Inl e \<Longrightarrow> e = KeyError"
  by (induction A P bd sp v rule: add_summands.induct)
     (auto split: sum.splits dest: add_terms_error)

lemma add_summands_missing:
  "(i, c) \<in> set sp \<Longrightarrow> (s, m) \<in> set (zip (ring_coefficients A c) (ring_monomials A c)) \<Longrightarrow>
   bd (lmul A (generator P i) m) = None \<Longrightarrow> add_summands A P bd sp v = Inl KeyError"
proof (induction A P bd sp v rule: add_summands.induct)
  case (1 A P base_dict vector)
  then show ?case by simp
next
  case (2 A P base_dict summand_index algebra_element rest vector)
  let ?r = "add_terms A base_dict (generator P summand_index)
              (zip (ring_coefficients A algebra_element) (ring_monomials A algebra_element)) vector"
  show ?case
  proof (cases ?r)
    case (Inl e)
    then show ?thesis using add_terms_error[OF Inl] by simp
  next
    case (Inr vector')
    have "(i, c) \<noteq> (summand_index, algebra_element)"
    proof
      assume "(i, c) = (summand_index, algebra_element)"
      with "2.prems" have "?r = Inl KeyError" by (auto intro: add_terms_missing)
      with Inr show False by simp
    qed
    with "2.prems" have "(i, c) \<in> set rest" by auto
    from "2.IH"[OF Inr this "2.prems"(2,3)] Inr show ?thesis by simp
  qed
qed

subsection \<open>A product outside the basis\<close>

text \<open>
  Claim C9.  Let \<open>x\<close> be a homogeneous element of degree \<open>n\<close>.  If a term \<open>(s, m)\<close> of a
  nonzero coefficient, at index \<open>i\<close>, gives a product \<^verbatim>\<open>m * g\<close> with the \<open>i\<close>-th
  generator that is not among \<^verbatim>\<open>P.basis_elements(n)\<close>, then
  \<^verbatim>\<open>vector_presentation()\<close> fails with the \<^verbatim>\<open>KeyError\<close> of the dictionary lookup, not
  with an error of its own.
\<close>

theorem missing_basis_element_KeyError:
  assumes deg: "degree A P x = Inr n"
    and i: "i < length (coefficients x)" "\<not> ring_is_zero A (coefficients x ! i)"
    and sm: "(s, m) \<in> set (zip (ring_coefficients A (coefficients x ! i))
                                (ring_monomials A (coefficients x ! i)))"
    and out: "lmul A (generator P i) m \<notin> set (basis_elements P n)"
  shows "vector_presentation A P x = Inl KeyError"
proof -
  let ?bd = "py_dict (zip (basis_elements P n) (vs_basis (vector_presentation_dim P n)))
               :: 'a element \<rightharpoonup> 'b list"
  let ?sp = "filter (\<lambda>x. \<not> ring_is_zero A (snd x)) (enumerate 0 (coefficients x))"
  have nz: "\<not> is_zero A x"
    using i by (rule nonzero_coefficient_not_zero_elem)
  have none: "?bd (lmul A (generator P i) m) = None"
    using out py_dict_keys[of "basis_elements P n" _ "lmul A (generator P i) m"]
    by (cases "?bd (lmul A (generator P i) m)") auto
  have mem: "(i, coefficients x ! i) \<in> set ?sp"
    using i by (simp add: in_set_enumerate_eq)
  have "add_summands A P ?bd ?sp (vs_zero (vector_presentation_dim P n)) = Inl KeyError"
    using mem sm none by (rule add_summands_missing)
  with nz deg show ?thesis
    by (simp add: vector_presentation_def)
qed

text \<open>
  In the module whose basis leaves \<open>t1\<cdot>g0\<close> out, the element \<open>(t0 + t1)\<cdot>g0 + 1\<cdot>g1\<close> of
  degree 6 has the term \<open>t1\<close> at index 0.
\<close>

theorem missing_basis_element_KeyError_witness:
  "degree sqz_algebra sqz_short_parent (element_constructor [(0, 1, 1), (1, 0, 0)]) = Inr 6 \<and>
   lmul sqz_algebra (generator sqz_short_parent 0) (0, 0, 1) \<notin> set (basis_elements sqz_short_parent 6) \<and>
   vector_presentation sqz_algebra sqz_short_parent (element_constructor [(0, 1, 1), (1, 0, 0)])
     = Inl KeyError"
proof -
  let ?x = "element_constructor [(0, 1, 1), (1, 0, 0)] :: sqz element"
  have deg: "degree sqz_algebra sqz_short_parent ?x = Inr 6"
    by code_simp
  have i: "0 < length (coefficients ?x)" "\<not> ring_is_zero sqz_algebra (coefficients ?x ! 0)"
    by (simp_all add: coefficients_def element_constructor_def sqz_algebra_def)
  have sm: "(1, (0, 0, 1)) \<in> set (zip (ring_coefficients sqz_algebra (coefficients ?x ! 0))
                                      (ring_monomials sqz_algebra (coefficients ?x ! 0)))"
    by (simp add: coefficients_def element_constructor_def sqz_algebra_def
        sqz_coefficients_def sqz_monomials_def)
  have out: "lmul sqz_algebra (generator sqz_short_parent 0) (0, 0, 1)
               \<notin> set (basis_elements sqz_short_parent 6)"
    by code_simp
  from missing_basis_element_KeyError[OF deg i sm out] deg out show ?thesis
    by simp
qed

section \<open>The round trip through the vector presentation\<close>

subsection \<open>The laws of the algebra, one by one\<close>

lemma laws_add_assoc:
  "algebra_laws A \<Longrightarrow> ring_add A (ring_add A a b) c = ring_add A a (ring_add A b c)"
  unfolding algebra_laws_def by blast

lemma laws_add_commute: "algebra_laws A \<Longrightarrow> ring_add A a b = ring_add A b a"
  unfolding algebra_laws_def by blast

lemma laws_add_zero: "algebra_laws A \<Longrightarrow> ring_add A (ring_zero A) a = a"
  unfolding algebra_laws_def by blast

lemma laws_add_zero_right:
  assumes "algebra_laws A"
  shows "ring_add A a (ring_zero A) = a"
  using laws_add_commute[OF assms, of a "ring_zero A"] laws_add_zero[OF assms, of a] by simp

lemma laws_is_zero: "algebra_laws A \<Longrightarrow> ring_is_zero A a \<longleftrightarrow> a = ring_zero A"
  unfolding algebra_laws_def by blast

lemma laws_mul_zero: "algebra_laws A \<Longrightarrow> ring_mul A a (ring_zero A) = ring_zero A"
  unfolding algebra_laws_def by blast

lemma laws_mul_one: "algebra_laws A \<Longrightarrow> ring_mul A a (ring_one A) = a"
  unfolding algebra_laws_def by blast

lemma laws_scale_add:
  "algebra_laws A \<Longrightarrow>
   ring_scale A s (ring_add A a b) = ring_add A (ring_scale A s a) (ring_scale A s b)"
  unfolding algebra_laws_def by blast

lemma laws_scale_plus:
  "algebra_laws A \<Longrightarrow>
   ring_scale A (s + t) a = ring_add A (ring_scale A s a) (ring_scale A t a)"
  unfolding algebra_laws_def by blast

lemma laws_scale_zero: "algebra_laws A \<Longrightarrow> ring_scale A s (ring_zero A) = ring_zero A"
  unfolding algebra_laws_def by blast

lemma laws_zero_scale: "algebra_laws A \<Longrightarrow> ring_scale A 0 a = ring_zero A"
  unfolding algebra_laws_def by blast

lemma laws_term_sum:
  "algebra_laws A \<Longrightarrow>
   term_sum A (ring_zero A) (zip (ring_coefficients A c) (ring_monomials A c)) = c"
  unfolding algebra_laws_def by blast

subsection \<open>Sums of elements\<close>

lemma map2_assoc:
  "(\<And>a b c. f (f a b) c = f a (f b c)) \<Longrightarrow>
   map2 f (map2 f xs ys) zs = map2 f xs (map2 f ys zs)"
proof (induction xs arbitrary: ys zs)
  case Nil
  then show ?case by simp
next
  case (Cons x xs)
  then show ?case by (cases ys; cases zs) simp_all
qed

lemma map2_commute: "(\<And>a b. f a b = f b a) \<Longrightarrow> map2 f xs ys = map2 f ys xs"
proof (induction xs arbitrary: ys)
  case Nil
  then show ?case by simp
next
  case (Cons x xs)
  then show ?case by (cases ys) simp_all
qed

lemma add_elem_assoc:
  "algebra_laws A \<Longrightarrow> add_elem A (add_elem A x y) z = add_elem A x (add_elem A y z)"
  by (simp add: add_elem_def element_constructor_def map2_assoc laws_add_assoc)

lemma add_elem_commute: "algebra_laws A \<Longrightarrow> add_elem A x y = add_elem A y x"
  by (simp add: add_elem_def element_constructor_def map2_commute[of "ring_add A"] laws_add_commute)

lemma add_elem_swap:
  assumes "algebra_laws A"
  shows "add_elem A (add_elem A x y) z = add_elem A (add_elem A x z) y"
proof -
  have "add_elem A (add_elem A x y) z = add_elem A x (add_elem A y z)"
    using assms by (rule add_elem_assoc)
  also have "\<dots> = add_elem A x (add_elem A z y)"
    using add_elem_commute[OF assms, of y z] by simp
  also have "\<dots> = add_elem A (add_elem A x z) y"
    using add_elem_assoc[OF assms, of x z y] by simp
  finally show ?thesis .
qed

lemma foldl_add_elem_shift:
  assumes "algebra_laws A"
  shows "foldl (add_elem A) (add_elem A acc e) ts = add_elem A (foldl (add_elem A) acc ts) e"
proof (induction ts arbitrary: acc)
  case Nil
  show ?case by simp
next
  case (Cons t ts)
  have "foldl (add_elem A) (add_elem A acc e) (t # ts)
          = foldl (add_elem A) (add_elem A (add_elem A acc t) e) ts"
    using add_elem_swap[OF assms, of acc e t] by simp
  also have "\<dots> = add_elem A (foldl (add_elem A) (add_elem A acc t) ts) e"
    by (rule Cons.IH)
  finally show ?case by simp
qed

lemma scale_elem_plus:
  "algebra_laws A \<Longrightarrow>
   scale_elem A (s + t) b = add_elem A (scale_elem A s b) (scale_elem A t b)"
  by (simp add: scale_elem_def add_elem_def element_constructor_def laws_scale_plus
      zip_map_map zip_same_conv_map)

subsection \<open>Adding a multiple of a standard basis vector\<close>

text \<open>
  The weighted sum of the basis elements is taken from the left, as Python's
  \<^verbatim>\<open>sum\<close> does.  Adding \<open>s\<close> times the \<open>k\<close>-th standard basis vector to the weights
  adds \<open>s\<close> times the \<open>k\<close>-th basis element to the sum.
\<close>

lemma weighted_sum_add_unit_shifted:
  assumes laws: "algebra_laws A"
  shows "length v = length B \<Longrightarrow>
    foldl (add_elem A) acc
      (map (\<lambda>(t, b). scale_elem A t b)
         (zip (vec_add v (vec_scale s (map (\<lambda>j. if j = k then 1 else 0) [off..<off + length B]))) B))
    = (if off \<le> k \<and> k < off + length B
       then add_elem A
              (foldl (add_elem A) acc (map (\<lambda>(t, b). scale_elem A t b) (zip v B)))
              (scale_elem A s (B ! (k - off)))
       else foldl (add_elem A) acc (map (\<lambda>(t, b). scale_elem A t b) (zip v B)))"
proof (induction B arbitrary: v off acc)
  case Nil
  then show ?case by auto
next
  case (Cons b B)
  from Cons.prems obtain v0 v' where v: "v = v0 # v'" and len: "length v' = length B"
    by (cases v) auto
  have upt: "[off..<off + length (b # B)] = off # [Suc off..<Suc off + length B]"
    using upt_conv_Cons[of off "Suc (off + length B)"] by (simp del: upt_Suc)
  let ?u = "\<lambda>off. vec_scale s (map (\<lambda>j. if j = k then 1 else 0) [off..<off + length B])"
  let ?W = "\<lambda>acc v. foldl (add_elem A) acc (map (\<lambda>(t, b). scale_elem A t b) (zip v B))"
  show ?case
  proof (cases "off = k")
    case True
    have "foldl (add_elem A) acc
            (map (\<lambda>(t, b). scale_elem A t b)
               (zip (vec_add v (vec_scale s (map (\<lambda>j. if j = k then 1 else 0)
                       [off..<off + length (b # B)]))) (b # B)))
          = ?W (add_elem A acc (scale_elem A (v0 + s) b)) (vec_add v' (?u (Suc off)))"
      unfolding upt using True by (simp add: v vec_add_def vec_scale_def del: upt_Suc)
    also have "\<dots> = ?W (add_elem A acc (scale_elem A (v0 + s) b)) v'"
      using Cons.IH[OF len, of "add_elem A acc (scale_elem A (v0 + s) b)" "Suc off"] True
      by simp
    also have "add_elem A acc (scale_elem A (v0 + s) b)
                 = add_elem A (add_elem A acc (scale_elem A v0 b)) (scale_elem A s b)"
      by (simp add: scale_elem_plus[OF laws] add_elem_assoc[OF laws])
    also have "?W (add_elem A (add_elem A acc (scale_elem A v0 b)) (scale_elem A s b)) v'
                 = add_elem A (?W (add_elem A acc (scale_elem A v0 b)) v') (scale_elem A s b)"
      by (rule foldl_add_elem_shift[OF laws])
    finally show ?thesis using True by (simp add: v)
  next
    case False
    have "foldl (add_elem A) acc
            (map (\<lambda>(t, b). scale_elem A t b)
               (zip (vec_add v (vec_scale s (map (\<lambda>j. if j = k then 1 else 0)
                       [off..<off + length (b # B)]))) (b # B)))
          = ?W (add_elem A acc (scale_elem A v0 b)) (vec_add v' (?u (Suc off)))"
      unfolding upt using False by (simp add: v vec_add_def vec_scale_def del: upt_Suc)
    also have "\<dots> = (if Suc off \<le> k \<and> k < Suc off + length B
                       then add_elem A (?W (add_elem A acc (scale_elem A v0 b)) v')
                              (scale_elem A s (B ! (k - Suc off)))
                       else ?W (add_elem A acc (scale_elem A v0 b)) v')"
      by (rule Cons.IH[OF len])
    finally show ?thesis using False by (auto simp: v nth_Cons')
  qed
qed

lemma weighted_sum_add_unit:
  assumes "algebra_laws A" "length v = length B" "k < length B"
  shows "foldl (add_elem A) acc
           (map (\<lambda>(t, b). scale_elem A t b)
              (zip (vec_add v (vec_scale s (unit_vector (length B) k))) B))
         = add_elem A
             (foldl (add_elem A) acc (map (\<lambda>(t, b). scale_elem A t b) (zip v B)))
             (scale_elem A s (B ! k))"
  using weighted_sum_add_unit_shifted[OF assms(1,2), of acc s k 0] assms(3)
  by (simp add: unit_vector_def)

lemma length_vec_add_unit:
  "length v = d \<Longrightarrow> length (vec_add v (vec_scale s (unit_vector d k))) = d"
  by (simp add: vec_add_def vec_scale_def unit_vector_def)

subsection \<open>The dictionary of a basis without repetition\<close>

lemma py_dict_basis_lookup:
  assumes "distinct B" "b \<in> set B"
  shows "\<exists>k < length B. B ! k = b \<and>
           py_dict (zip B (vs_basis (length B) :: ('s::comm_ring_1) list list)) b
             = Some (unit_vector (length B) k)"
proof -
  let ?vs = "vs_basis (length B) :: 's list list"
  from assms(2) obtain k where k: "k < length B" "B ! k = b"
    by (auto simp: in_set_conv_nth)
  have len: "length ?vs = length B"
    by (simp add: vs_basis_def)
  have mem: "(b, unit_vector (length B) k) \<in> set (rev (zip B ?vs))"
    using k by (auto simp: set_zip vs_basis_def intro!: exI[of _ k])
  have dist: "distinct (map fst (rev (zip B ?vs)))"
    using assms(1) len by (simp add: rev_map[symmetric])
  from map_of_is_SomeI[OF dist mem] k show ?thesis
    by (auto simp: py_dict_def)
qed

subsection \<open>Elements with a single coefficient\<close>

lemma lmul_unit_elem:
  "algebra_laws A \<Longrightarrow> lmul A (unit_elem A k i (ring_one A)) m = unit_elem A k i m"
  by (simp add: lmul_def unit_elem_def coefficients_def element_constructor_def
      laws_mul_one laws_mul_zero)

lemma scale_unit_elem:
  "algebra_laws A \<Longrightarrow> scale_elem A s (unit_elem A k i a) = unit_elem A k i (ring_scale A s a)"
  by (simp add: scale_elem_def unit_elem_def element_constructor_def laws_scale_zero)

lemma add_unit_elem:
  "algebra_laws A \<Longrightarrow>
   add_elem A (unit_elem A k i a) (unit_elem A k i b) = unit_elem A k i (ring_add A a b)"
  by (simp add: add_elem_def unit_elem_def element_constructor_def zip_map_map
      zip_same_conv_map laws_add_zero)

lemma add_unit_elem_zero:
  assumes "algebra_laws A" "length xs = k"
  shows "add_elem A (element_constructor xs) (unit_elem A k i (ring_zero A)) = element_constructor xs"
proof -
  have "map2 (ring_add A) xs (map (\<lambda>j. if j = i then ring_zero A else ring_zero A) [0..<k]) = xs"
    using assms by (intro nth_equalityI) (simp_all add: laws_add_zero_right)
  then show ?thesis
    by (simp add: add_elem_def unit_elem_def element_constructor_def)
qed

lemma add_unit_elem_next:
  assumes "algebra_laws A"
  shows "add_elem A (element_constructor (pre @ replicate (Suc n) (ring_zero A)))
           (unit_elem A (length pre + Suc n) (length pre) c)
         = element_constructor ((pre @ [c]) @ replicate n (ring_zero A))"
proof -
  have "map2 (ring_add A) (pre @ replicate (Suc n) (ring_zero A))
          (map (\<lambda>j. if j = length pre then c else ring_zero A) [0..<length pre + Suc n])
        = (pre @ [c]) @ replicate n (ring_zero A)"
  proof (rule nth_equalityI)
    show "length (map2 (ring_add A) (pre @ replicate (Suc n) (ring_zero A))
            (map (\<lambda>j. if j = length pre then c else ring_zero A) [0..<length pre + Suc n]))
          = length ((pre @ [c]) @ replicate n (ring_zero A))"
      by simp
  next
    fix j
    assume "j < length (map2 (ring_add A) (pre @ replicate (Suc n) (ring_zero A))
            (map (\<lambda>j. if j = length pre then c else ring_zero A) [0..<length pre + Suc n]))"
    then have j: "j < length pre + Suc n" by simp
    consider "j < length pre" | "j = length pre" | "length pre < j" by linarith
    then show "map2 (ring_add A) (pre @ replicate (Suc n) (ring_zero A))
            (map (\<lambda>j. if j = length pre then c else ring_zero A) [0..<length pre + Suc n]) ! j
          = ((pre @ [c]) @ replicate n (ring_zero A)) ! j"
    proof cases
      case 1
      then show ?thesis using j
        by (simp add: nth_append laws_add_zero_right[OF assms] del: upt_Suc replicate_Suc)
    next
      case 2
      then show ?thesis using j
        by (simp add: nth_append laws_add_zero[OF assms] del: upt_Suc replicate_Suc)
    next
      case 3
      then show ?thesis using j
        by (simp add: nth_append laws_add_zero[OF assms] del: upt_Suc replicate_Suc)
    qed
  qed
  then show ?thesis
    by (simp add: add_elem_def unit_elem_def element_constructor_def del: upt_Suc replicate_Suc)
qed

subsection \<open>The invariants of the two loops\<close>

text \<open>
  The inner loop adds the terms of one coefficient: when the weighted sum is
  \<open>E + a0\<cdot>g\<close> before the loop, it is \<open>E + (a0 + \<Sum> s\<cdot>m)\<cdot>g\<close> after it.  The outer loop
  goes through the coefficients in order: after the coefficients \<open>pre\<close> it has rebuilt the
  element with the coefficients \<open>pre\<close> and zero elsewhere.
\<close>

lemma add_terms_round:
  assumes laws: "algebra_laws A" and dist: "distinct B"
  shows "length v = length B \<Longrightarrow>
    \<forall>(s, m) \<in> set ts. lmul A (unit_elem A k i (ring_one A)) m \<in> set B \<Longrightarrow>
    foldl (add_elem A) acc (map (\<lambda>(t, b). scale_elem A t b) (zip v B))
      = add_elem A E (unit_elem A k i a0) \<Longrightarrow>
    \<exists>v'. add_terms A (py_dict (zip B (vs_basis (length B)))) (unit_elem A k i (ring_one A)) ts v
            = Inr v' \<and>
         length v' = length B \<and>
         foldl (add_elem A) acc (map (\<lambda>(t, b). scale_elem A t b) (zip v' B))
           = add_elem A E (unit_elem A k i (term_sum A a0 ts))"
proof (induction ts arbitrary: v a0)
  case Nil
  then show ?case by (simp add: term_sum_def)
next
  case (Cons sm ts)
  obtain s m where sm: "sm = (s, m)" by (cases sm)
  let ?g = "unit_elem A k i (ring_one A)"
  let ?W = "\<lambda>v. foldl (add_elem A) acc (map (\<lambda>(t, b). scale_elem A t b) (zip v B))"
  from Cons.prems(2) sm have "lmul A ?g m \<in> set B" by simp
  from py_dict_basis_lookup[OF dist this] obtain j where
    j: "j < length B" "B ! j = lmul A ?g m"
       "py_dict (zip B (vs_basis (length B) :: 'b list list)) (lmul A ?g m)
          = Some (unit_vector (length B) j)"
    by blast
  let ?v1 = "vec_add v (vec_scale s (unit_vector (length B) j))"
  have len1: "length ?v1 = length B"
    using Cons.prems(1) by (rule length_vec_add_unit)
  have "?W ?v1 = add_elem A (?W v) (scale_elem A s (B ! j))"
    using laws Cons.prems(1) j(1) by (rule weighted_sum_add_unit)
  also have "\<dots> = add_elem A (add_elem A E (unit_elem A k i a0))
                      (unit_elem A k i (ring_scale A s m))"
    by (simp add: Cons.prems(3) j(2) lmul_unit_elem[OF laws] scale_unit_elem[OF laws])
  also have "\<dots> = add_elem A E (unit_elem A k i (ring_add A a0 (ring_scale A s m)))"
    by (simp add: add_elem_assoc[OF laws] add_unit_elem[OF laws])
  finally have inv: "?W ?v1 = add_elem A E (unit_elem A k i (ring_add A a0 (ring_scale A s m)))" .
  have rest: "\<forall>(s, m) \<in> set ts. lmul A ?g m \<in> set B"
    using Cons.prems(2) by simp
  from Cons.IH[OF len1 rest inv] show ?case
    by (simp add: sm j(3) term_sum_def)
qed


lemma add_summands_round:
  assumes laws: "algebra_laws A" and dist: "distinct B"
    and gen: "\<forall>i < k. generator P i = unit_elem A k i (ring_one A)"
  shows "length v = length B \<Longrightarrow> length pre + length ys = k \<Longrightarrow>
    \<forall>(i, c) \<in> set (enumerate (length pre) ys).
       \<not> ring_is_zero A c \<longrightarrow>
       (\<forall>(s, m) \<in> set (zip (ring_coefficients A c) (ring_monomials A c)).
          lmul A (generator P i) m \<in> set B) \<Longrightarrow>
    foldl (add_elem A) acc (map (\<lambda>(t, b). scale_elem A t b) (zip v B))
      = element_constructor (pre @ replicate (length ys) (ring_zero A)) \<Longrightarrow>
    \<exists>v'. add_summands A P (py_dict (zip B (vs_basis (length B))))
            (filter (\<lambda>x. \<not> ring_is_zero A (snd x)) (enumerate (length pre) ys)) v = Inr v' \<and>
         length v' = length B \<and>
         foldl (add_elem A) acc (map (\<lambda>(t, b). scale_elem A t b) (zip v' B))
           = element_constructor (pre @ ys)"
proof (induction ys arbitrary: v pre)
  case Nil
  then show ?case by simp
next
  case (Cons c ys)
  let ?W = "\<lambda>v. foldl (add_elem A) acc (map (\<lambda>(t, b). scale_elem A t b) (zip v B))"
  let ?pre = "pre @ [c]"
  have len': "length ?pre + length ys = k" using Cons.prems(2) by simp
  have rest: "\<forall>(i, c) \<in> set (enumerate (length ?pre) ys).
       \<not> ring_is_zero A c \<longrightarrow>
       (\<forall>(s, m) \<in> set (zip (ring_coefficients A c) (ring_monomials A c)).
          lmul A (generator P i) m \<in> set B)"
    using Cons.prems(3) by simp
  show ?case
  proof (cases "ring_is_zero A c")
    case True
    then have c: "c = ring_zero A" using laws_is_zero[OF laws] by simp
    have "?W v = element_constructor (?pre @ replicate (length ys) (ring_zero A))"
      using Cons.prems(4) c by simp
    from Cons.IH[OF Cons.prems(1) len' rest this] True show ?thesis by simp
  next
    case False
    let ?i = "length pre"
    let ?ts = "zip (ring_coefficients A c) (ring_monomials A c)"
    have i: "?i < k" using Cons.prems(2) by simp
    then have g: "generator P ?i = unit_elem A k ?i (ring_one A)" using gen by simp
    have prods: "\<forall>(s, m) \<in> set ?ts. lmul A (unit_elem A k ?i (ring_one A)) m \<in> set B"
      using Cons.prems(3) False g by simp
    have k: "k = length pre + Suc (length ys)" using Cons.prems(2) by simp
    have "?W v = add_elem A (element_constructor (pre @ replicate (Suc (length ys)) (ring_zero A)))
                   (unit_elem A k ?i (ring_zero A))"
      using Cons.prems(4) add_unit_elem_zero[OF laws, of "pre @ replicate (Suc (length ys)) (ring_zero A)" k ?i] k
      by simp
    from add_terms_round[OF laws dist Cons.prems(1) prods this] obtain v1 where
      v1: "add_terms A (py_dict (zip B (vs_basis (length B)))) (unit_elem A k ?i (ring_one A)) ?ts v
             = Inr v1"
          "length v1 = length B"
          "?W v1 = add_elem A (element_constructor (pre @ replicate (Suc (length ys)) (ring_zero A)))
                     (unit_elem A k ?i (term_sum A (ring_zero A) ?ts))"
      by blast
    have "?W v1 = element_constructor (?pre @ replicate (length ys) (ring_zero A))"
      unfolding v1(3) laws_term_sum[OF laws] k by (rule add_unit_elem_next[OF laws])
    from Cons.IH[OF v1(2) len' rest this] obtain v' where
      v': "add_summands A P (py_dict (zip B (vs_basis (length B))))
             (filter (\<lambda>x. \<not> ring_is_zero A (snd x)) (enumerate (length ?pre) ys)) v1 = Inr v'"
          "length v' = length B"
          "?W v' = element_constructor (?pre @ ys)"
      by blast
    show ?thesis using False v1(1) v' g by simp
  qed
qed

lemma weighted_sum_zero:
  assumes laws: "algebra_laws A" and wf: "\<forall>b \<in> set B. length (coefficients b) = k"
  shows "foldl (add_elem A) (element_constructor (replicate k (ring_zero A)))
           (map (\<lambda>(t, b). scale_elem A t b) (zip (replicate (length B) 0) B))
         = element_constructor (replicate k (ring_zero A))"
  using wf
proof (induction B)
  case Nil
  show ?case by simp
next
  case (Cons b B)
  have "length (dense_coefficient_list b) = k"
    using Cons.prems by (simp add: coefficients_def)
  then have "map (ring_scale A 0) (dense_coefficient_list b) = replicate k (ring_zero A)"
    by (intro nth_equalityI) (simp_all add: laws_zero_scale[OF laws])
  then have "scale_elem A 0 b = element_constructor (replicate k (ring_zero A))"
    by (simp add: scale_elem_def)
  moreover have "add_elem A (element_constructor (replicate k (ring_zero A)))
                   (element_constructor (replicate k (ring_zero A)))
                 = element_constructor (replicate k (ring_zero A))"
    by (simp add: add_elem_def element_constructor_def zip_replicate laws_add_zero[OF laws])
  ultimately show ?case using Cons by simp
qed

subsection \<open>The round trip when the terms are aligned\<close>

text \<open>
  Let \<open>x\<close> be a homogeneous (hence nonzero) element of degree \<open>n\<close>, with one coefficient
  per generator.  If the algebra and the parent keep \<open>algebra_laws\<close>, \<open>parent_laws\<close> and
  \<open>products_in_basis\<close>, then \<^verbatim>\<open>vector_presentation()\<close> returns a vector \<open>v\<close>, and the
  sum of \<^verbatim>\<open>scalar * basis_element\<close> over \<^verbatim>\<open>zip(v, P.basis_elements(n))\<close> is \<open>x\<close>
  again.  The last law of \<open>algebra_laws\<close> is the one the inner loop relies on: the
  \<open>j\<close>-th scalar of \<^verbatim>\<open>c.coefficients()\<close> belongs to the \<open>j\<close>-th monomial of
  \<^verbatim>\<open>c.monomials()\<close>.
\<close>

lemma round_trip_of_aligned_terms:
  assumes laws: "algebra_laws A" and plaws: "parent_laws A P n"
    and len: "length (coefficients x) = length (generator_degrees P)"
    and deg: "degree A P x = Inr n"
    and prods: "products_in_basis A P x n"
  shows "\<exists>v. vector_presentation A P x = Inr (Some v) \<and> reconstruct A P v n = x"
proof -
  let ?B = "basis_elements P n"
  let ?k = "length (generator_degrees P)"
  let ?z = "element_constructor (replicate ?k (ring_zero A))"
  have nz: "\<not> is_zero A x"
    using deg by (auto simp: degree_def)
  have dist: "distinct ?B" and dim: "vector_presentation_dim P n = length ?B"
    and gen: "\<forall>i < ?k. generator P i = unit_elem A ?k i (ring_one A)"
    and wf: "\<forall>b \<in> set ?B. length (coefficients b) = ?k"
    using plaws by (simp_all add: parent_laws_def)
  have l0: "length (vs_zero (length ?B) :: 'b list) = length ?B"
    by (simp add: vs_zero_def)
  have l1: "length ([] :: 'a list) + length (coefficients x) = ?k"
    using len by simp
  have p: "\<forall>(i, c) \<in> set (enumerate (length ([] :: 'a list)) (coefficients x)).
       \<not> ring_is_zero A c \<longrightarrow>
       (\<forall>(s, m) \<in> set (zip (ring_coefficients A c) (ring_monomials A c)).
          lmul A (generator P i) m \<in> set ?B)"
    using prods by (simp add: products_in_basis_def)
  have w0: "foldl (add_elem A) ?z (map (\<lambda>(t, b). scale_elem A t b) (zip (vs_zero (length ?B)) ?B))
        = element_constructor ([] @ replicate (length (coefficients x)) (ring_zero A))"
    using weighted_sum_zero[OF laws wf] len by (simp add: vs_zero_def)
  from add_summands_round[OF laws dist gen l0 l1 p w0] obtain v where
    v: "add_summands A P (py_dict (zip ?B (vs_basis (length ?B))))
          (filter (\<lambda>x. \<not> ring_is_zero A (snd x)) (enumerate 0 (coefficients x)))
          (vs_zero (length ?B)) = Inr v"
       "foldl (add_elem A) ?z (map (\<lambda>(t, b). scale_elem A t b) (zip v ?B))
          = element_constructor (coefficients x)"
    by auto
  have "vector_presentation A P x = Inr (Some v)"
    using nz deg v(1) by (simp add: vector_presentation_def dim)
  moreover have "reconstruct A P v n = x"
    using v(2) by (simp add: reconstruct_def zero_elem_def element_constructor_def coefficients_def)
  ultimately show ?thesis by blast
qed

text \<open>
  The element \<open>(2\<cdot>t0 - 3\<cdot>t1)\<cdot>g0 + 5\<cdot>g1\<close> of degree 6 in the module on generators of
  degrees 0 and 6 over the example algebra: its vector is \<open>(2, -3, 5)\<close>.
\<close>

lemma round_trip_of_aligned_terms_example:
  "algebra_laws sqz_algebra \<and>
   parent_laws sqz_algebra (sqz_parent [0, 6]) 6 \<and>
   degree sqz_algebra (sqz_parent [0, 6]) (element_constructor [(0, 2, - 3), (5, 0, 0)]) = Inr 6 \<and>
   products_in_basis sqz_algebra (sqz_parent [0, 6]) (element_constructor [(0, 2, - 3), (5, 0, 0)]) 6 \<and>
   vector_presentation sqz_algebra (sqz_parent [0, 6]) (element_constructor [(0, 2, - 3), (5, 0, 0)])
     = Inr (Some [2, - 3, 5]) \<and>
   reconstruct sqz_algebra (sqz_parent [0, 6]) [2, - 3, 5] 6
     = element_constructor [(0, 2, - 3), (5, 0, 0)]"
proof -
  let ?x = "element_constructor [(0, 2, - 3), (5, 0, 0)] :: sqz element"
  let ?P = "sqz_parent [0, 6]"
  have laws: "algebra_laws sqz_algebra"
    unfolding algebra_laws_def
    by (intro conjI allI)
       (auto simp: sqz_algebra_def algebra_simps term_sum_def sqz_coefficients_def
          sqz_monomials_def)
  have gen: "\<forall>i < length (generator_degrees ?P).
               generator ?P i = unit_elem sqz_algebra (length (generator_degrees ?P)) i
                                  (ring_one sqz_algebra)"
    by (simp add: sqz_parent_def sqz_algebra_def)
  have dist: "distinct (basis_elements ?P 6)"
    by code_simp
  have dim: "vector_presentation_dim ?P 6 = length (basis_elements ?P 6)"
    by (simp add: sqz_parent_def)
  have wf: "\<forall>b \<in> set (basis_elements ?P 6).
              length (coefficients b) = length (generator_degrees ?P)"
    by code_simp
  have plaws: "parent_laws sqz_algebra ?P 6"
    unfolding parent_laws_def using gen dist dim wf by blast
  have len: "length (coefficients ?x) = length (generator_degrees ?P)"
    by (simp add: coefficients_def element_constructor_def sqz_parent_def)
  have deg: "degree sqz_algebra ?P ?x = Inr 6"
    by code_simp
  have prods: "products_in_basis sqz_algebra ?P ?x 6"
    by code_simp
  have vp: "vector_presentation sqz_algebra ?P ?x = Inr (Some [2, - 3, 5])"
    by code_simp
  from round_trip_of_aligned_terms[OF laws plaws len deg prods] vp
  have "reconstruct sqz_algebra ?P [2, - 3, 5] 6 = ?x"
    by simp
  with laws plaws deg prods vp show ?thesis
    by blast
qed

subsection \<open>The round trip when the terms are not aligned\<close>

text \<open>
  In the algebra that lists scalars and monomials in different orders, the element
  \<open>x = (2\<cdot>t0 - 3\<cdot>t1)\<cdot>g0 + 5\<cdot>g1\<close> is homogeneous of degree 6, the parent keeps its laws and
  every product that \<open>x\<close> needs is in the basis; but the terms that the inner loop pairs
  do not add up to the coefficient \<open>2\<cdot>t0 - 3\<cdot>t1\<close>.
\<close>

lemma unaligned_example_contracts:
  "parent_laws sqz_unaligned_algebra (sqz_parent [0, 6]) 6 \<and>
   products_in_basis sqz_unaligned_algebra (sqz_parent [0, 6])
     (element_constructor [(0, 2, - 3), (5, 0, 0)]) 6 \<and>
   term_sum sqz_unaligned_algebra (ring_zero sqz_unaligned_algebra)
     (zip (ring_coefficients sqz_unaligned_algebra (0, 2, - 3))
          (ring_monomials sqz_unaligned_algebra (0, 2, - 3))) = (0, - 3, 2)"
proof -
  let ?P = "sqz_parent [0, 6]"
  have gen: "\<forall>i < length (generator_degrees ?P).
               generator ?P i = unit_elem sqz_unaligned_algebra (length (generator_degrees ?P)) i
                                  (ring_one sqz_unaligned_algebra)"
    by (simp add: sqz_parent_def sqz_algebra_def sqz_unaligned_algebra_def unit_elem_def)
  have dist: "distinct (basis_elements ?P 6)"
    by code_simp
  have dim: "vector_presentation_dim ?P 6 = length (basis_elements ?P 6)"
    by (simp add: sqz_parent_def)
  have wf: "\<forall>b \<in> set (basis_elements ?P 6).
              length (coefficients b) = length (generator_degrees ?P)"
    by code_simp
  have plaws: "parent_laws sqz_unaligned_algebra ?P 6"
    unfolding parent_laws_def using gen dist dim wf by blast
  have prods: "products_in_basis sqz_unaligned_algebra ?P
                 (element_constructor [(0, 2, - 3), (5, 0, 0)]) 6"
    by code_simp
  have ts: "term_sum sqz_unaligned_algebra (ring_zero sqz_unaligned_algebra)
              (zip (ring_coefficients sqz_unaligned_algebra (0, 2, - 3))
                   (ring_monomials sqz_unaligned_algebra (0, 2, - 3))) = (0, - 3, 2)"
    by code_simp
  from plaws prods ts show ?thesis by blast
qed

text \<open>
  Claim C1 says that for every homogeneous element \<open>x\<close> of degree \<open>n\<close> the sum of
  \<^verbatim>\<open>scalar * basis_element\<close> over \<^verbatim>\<open>zip(vector_presentation(x), basis_elements(n))\<close>
  is \<open>x\<close> again, as the doctest of the method does.  The inner loop pairs
  \<^verbatim>\<open>c.coefficients()\<close> with \<^verbatim>\<open>c.monomials()\<close> by position, and these are two
  calls that need not list the terms in one order.  Where they do not, the claim fails:
  for \<open>x = (2\<cdot>t0 - 3\<cdot>t1)\<cdot>g0 + 5\<cdot>g1\<close> of degree 6, with the basis
  \<open>t0\<cdot>g0, t1\<cdot>g0, 1\<cdot>g1\<close>, the method returns \<open>(-3, 2, 5)\<close> where \<open>(2, -3, 5)\<close> is right,
  and the sum over the basis is \<open>(-3\<cdot>t0 + 2\<cdot>t1)\<cdot>g0 + 5\<cdot>g1\<close>, which is not \<open>x\<close>.
\<close>

theorem round_trip_fails_on_unaligned_terms:
  "ring_coefficients sqz_unaligned_algebra (0, 2, - 3) = [2, - 3] \<and>
   ring_monomials sqz_unaligned_algebra (0, 2, - 3) = [(0, 0, 1), (0, 1, 0)] \<and>
   basis_elements (sqz_parent [0, 6]) 6
     = [element_constructor [(0, 1, 0), (0, 0, 0)],
        element_constructor [(0, 0, 1), (0, 0, 0)],
        element_constructor [(0, 0, 0), (1, 0, 0)]] \<and>
   degree sqz_unaligned_algebra (sqz_parent [0, 6])
     (element_constructor [(0, 2, - 3), (5, 0, 0)]) = Inr 6 \<and>
   vector_presentation sqz_unaligned_algebra (sqz_parent [0, 6])
     (element_constructor [(0, 2, - 3), (5, 0, 0)]) = Inr (Some [- 3, 2, 5]) \<and>
   reconstruct sqz_unaligned_algebra (sqz_parent [0, 6]) [- 3, 2, 5] 6
     = element_constructor [(0, - 3, 2), (5, 0, 0)] \<and>
   reconstruct sqz_unaligned_algebra (sqz_parent [0, 6]) [- 3, 2, 5] 6
     \<noteq> element_constructor [(0, 2, - 3), (5, 0, 0)]"
  by code_simp

end
